theory Spec2Isabelle
  imports Complex_Main "HOL-Library.Sublist"
begin

section \<open>Data model\<close>

text \<open>
  The program (\<^verbatim>\<open>git.py\<close>) holds two module-level values that are loaded once:
  \<^verbatim>\<open>movies\<close>, a data frame with the columns \<^verbatim>\<open>movie_id\<close> and \<^verbatim>\<open>title\<close>, and
  \<^verbatim>\<open>similarity\<close>, a two-dimensional array of scores. The data frame is the list of
  its rows, in order, together with the list of its index labels (\<^verbatim>\<open>movies.index\<close>,
  integers, one for each row). \<^verbatim>\<open>.iloc\<close> and \<^verbatim>\<open>range(len(movies))\<close> read the rows by
  position; \<^verbatim>\<open>.index[0]\<close> reads a label. Scores are real numbers (no NaN). The values
  are passed explicitly to the functions that read them.
\<close>

datatype py_error = IndexError | KeyError | ValueError

record movie =
  movie_id :: int
  title :: string

type_synonym catalog = "movie list"

type_synonym index_labels = "int list"

type_synonym similarity_matrix = "real list list"

text \<open>
  The rating of a movie is what \<^verbatim>\<open>data.get('vote_average', 'N/A')\<close> gives: the number of
  the response, or the string \<^verbatim>\<open>'N/A'\<close>, which is also the rating of the fallback tuple.
\<close>

datatype rating = Num real | NA

text \<open>
  The remote service. A request either fails somewhere between \<^verbatim>\<open>requests.get\<close>,
  \<^verbatim>\<open>raise_for_status\<close> and \<^verbatim>\<open>response.json()\<close>, or yields the decoded body. Of the
  body only the keys the code reads are kept; a key that may be absent is an option.
  The answer of the service depends on the movie identifier only.
\<close>

datatype 'a response = Failed | Json 'a

record movie_json =
  json_poster_path :: "string option"
  json_genres :: "string option list option"
  json_vote_average :: "real option"
  json_credits_cast :: "string option list option"

record video =
  video_type :: "string option"
  video_site :: "string option"
  video_key :: "string option"

record api =
  movie_response :: "int \<Rightarrow> movie_json response"
  videos_response :: "int \<Rightarrow> video list option response"

text \<open>The dictionary built for every recommended or matched movie.\<close>

record result =
  Title :: string
  Poster :: string
  Genres :: string
  Rating :: rating
  Cast :: string
  Trailer :: string

type_synonym details = "string \<times> string \<times> rating \<times> string"

section \<open>Python primitives\<close>

text \<open>\<^verbatim>\<open>str.lower\<close> on the ASCII letters; other bytes are left as they are.\<close>

definition lower_char :: "char \<Rightarrow> char" where
  "lower_char c =
     (let n = (of_char c :: nat) in if 65 \<le> n \<and> n \<le> 90 then char_of (n + 32) else c)"

definition lower :: "string \<Rightarrow> string" where
  "lower s = map lower_char s"

text \<open>\<^verbatim>\<open>sep.join(xs)\<close>.\<close>

fun join :: "string \<Rightarrow> string list \<Rightarrow> string" where
  "join sep [] = []"
| "join sep [x] = x"
| "join sep (x # y # ys) = x @ sep @ join sep (y # ys)"

text \<open>\<^verbatim>\<open>float(rating)\<close>: the number itself, or \<^verbatim>\<open>ValueError\<close> on \<^verbatim>\<open>'N/A'\<close>.\<close>

fun py_float :: "rating \<Rightarrow> py_error + real" where
  "py_float (Num r) = Inr r"
| "py_float NA = Inl ValueError"

text \<open>
  \<^verbatim>\<open>sorted(xs, reverse=True, key=key)\<close>. The sort is stable; with \<^verbatim>\<open>reverse=True\<close> the
  list is reversed, sorted in ascending order and reversed again, which keeps elements
  of equal key in their original order.
\<close>

definition py_sorted_reverse :: "('a \<Rightarrow> 'k::linorder) \<Rightarrow> 'a list \<Rightarrow> 'a list" where
  "py_sorted_reverse key xs = rev (sort_key key (rev xs))"

text \<open>
  \<^verbatim>\<open>xs[start:stop]\<close>: a negative bound counts from the end, and every bound is clipped
  to the list.
\<close>

definition slice_bound :: "'a list \<Rightarrow> int \<Rightarrow> nat" where
  "slice_bound xs i =
     (if i < 0 then nat (max 0 (int (length xs) + i)) else min (nat i) (length xs))"

definition py_slice :: "'a list \<Rightarrow> int \<Rightarrow> int \<Rightarrow> 'a list" where
  "py_slice xs start stop = drop (slice_bound xs start) (take (slice_bound xs stop) xs)"

section \<open>API helpers\<close>

text \<open>\<^verbatim>\<open>[x['name'] for x in xs]\<close>: a missing key raises \<^verbatim>\<open>KeyError\<close>.\<close>

fun names :: "string option list \<Rightarrow> py_error + string list" where
  "names [] = Inr []"
| "names (None # xs) = Inl KeyError"
| "names (Some n # xs) = (case names xs of Inl e \<Rightarrow> Inl e | Inr ns \<Rightarrow> Inr (n # ns))"

definition parse_movie_details :: "movie_json \<Rightarrow> py_error + details" where
  "parse_movie_details data =
     (let poster =
        (case json_poster_path data of
           None \<Rightarrow> ''https://via.placeholder.com/500x750?text=No+Image''
         | Some p \<Rightarrow>
             if p \<noteq> [] then ''https://image.tmdb.org/t/p/w500/'' @ p
             else ''https://via.placeholder.com/500x750?text=No+Image'')
      in case names (case json_genres data of None \<Rightarrow> [] | Some gs \<Rightarrow> gs) of
           Inl e \<Rightarrow> Inl e
         | Inr genre_names \<Rightarrow>
             (let genres = join '', '' genre_names;
                  rating = (case json_vote_average data of None \<Rightarrow> NA | Some v \<Rightarrow> Num v)
              in case names (case json_credits_cast data of None \<Rightarrow> [] | Some cs \<Rightarrow> cs) of
                   Inl e \<Rightarrow> Inl e
                 | Inr cast_names \<Rightarrow>
                     Inr (poster, genres, rating, join '', '' (take 5 cast_names))))"

definition fetch_movie_details :: "api \<Rightarrow> int \<Rightarrow> details" where
  "fetch_movie_details a mid =
     (case movie_response a mid of
        Failed \<Rightarrow> (''https://via.placeholder.com/500x750?text=Error'', ''N/A'', NA, ''N/A'')
      | Json data \<Rightarrow>
          (case parse_movie_details data of
             Inl e \<Rightarrow> (''https://via.placeholder.com/500x750?text=Error'', ''N/A'', NA, ''N/A'')
           | Inr d \<Rightarrow> d))"

text \<open>
  The loop of \<^verbatim>\<open>fetch_trailer\<close>. \<^verbatim>\<open>video['type']\<close>, \<^verbatim>\<open>video['site']\<close> and
  \<^verbatim>\<open>video['key']\<close> raise \<^verbatim>\<open>KeyError\<close> when the key is absent; \<^verbatim>\<open>and\<close> reads the site
  only when the type is \<^verbatim>\<open>'Trailer'\<close>.
\<close>

fun trailer_loop :: "video list \<Rightarrow> py_error + string" where
  "trailer_loop [] = Inr ''https://youtube.com''"
| "trailer_loop (v # vs) =
     (case video_type v of
        None \<Rightarrow> Inl KeyError
      | Some t \<Rightarrow>
          if t = ''Trailer'' then
            (case video_site v of
               None \<Rightarrow> Inl KeyError
             | Some s \<Rightarrow>
                 if s = ''YouTube'' then
                   (case video_key v of
                      None \<Rightarrow> Inl KeyError
                    | Some k \<Rightarrow> Inr (''https://www.youtube.com/watch?v='' @ k))
                 else trailer_loop vs)
          else trailer_loop vs)"

definition fetch_trailer :: "api \<Rightarrow> int \<Rightarrow> string" where
  "fetch_trailer a mid =
     (case videos_response a mid of
        Failed \<Rightarrow> ''https://youtube.com''
      | Json data \<Rightarrow>
          (case trailer_loop (case data of None \<Rightarrow> [] | Some vs \<Rightarrow> vs) of
             Inl e \<Rightarrow> ''https://youtube.com''
           | Inr url \<Rightarrow> url))"

section \<open>Recommendation logic\<close>

text \<open>
  \<^verbatim>\<open>movies[movies['title'] == movie].index[0]\<close>: the index label of the first row whose
  title is the given one; \<^verbatim>\<open>IndexError\<close> when the selection is empty.
\<close>

definition title_index :: "index_labels \<Rightarrow> catalog \<Rightarrow> string \<Rightarrow> py_error + int" where
  "title_index idx movies t =
     (case filter (\<lambda>row. title (snd row) = t) (zip idx movies) of
        [] \<Rightarrow> Inl IndexError
      | row # _ \<Rightarrow> Inr (fst row))"

text \<open>
  \<^verbatim>\<open>similarity[index]\<close>, the label used as a row number of the array: a negative number
  counts from the end, a number outside the array raises \<^verbatim>\<open>IndexError\<close>.
\<close>

definition np_row :: "similarity_matrix \<Rightarrow> int \<Rightarrow> py_error + real list" where
  "np_row similarity i =
     (let n = int (length similarity)
      in if 0 \<le> i \<and> i < n then Inr (similarity ! nat i)
         else if - n \<le> i \<and> i < 0 then Inr (similarity ! nat (n + i))
         else Inl IndexError)"

text \<open>\<^verbatim>\<open>movies.iloc[i]\<close> for a position that is not negative.\<close>

definition iloc :: "catalog \<Rightarrow> nat \<Rightarrow> py_error + movie" where
  "iloc movies i = (if i < length movies then Inr (movies ! i) else Inl IndexError)"

text \<open>\<^verbatim>\<open>sorted(list(enumerate(row)), reverse=True, key=lambda x: x[1])\<close>.\<close>

definition distances_of :: "real list \<Rightarrow> (nat \<times> real) list" where
  "distances_of row = py_sorted_reverse snd (enumerate 0 row)"

text \<open>\<^verbatim>\<open>distances[1:num_results + 1]\<close>, the entries the loop of \<^verbatim>\<open>recommend\<close> visits.\<close>

definition ranked :: "real list \<Rightarrow> int \<Rightarrow> (nat \<times> real) list" where
  "ranked row num_results = py_slice (distances_of row) 1 (num_results + 1)"

fun recommend_loop ::
  "api \<Rightarrow> catalog \<Rightarrow> (nat \<times> real) list \<Rightarrow> result list \<Rightarrow> py_error + result list" where
  "recommend_loop a movies [] recommendations = Inr recommendations"
| "recommend_loop a movies (i # rest) recommendations =
     (case iloc movies (fst i) of
        Inl e \<Rightarrow> Inl e
      | Inr m \<Rightarrow>
          (let (poster, genres, rating, cast) = fetch_movie_details a (movie_id m);
               trailer = fetch_trailer a (movie_id m)
           in recommend_loop a movies rest
                (recommendations @
                 [\<lparr>Title = title m, Poster = poster, Genres = genres, Rating = rating,
                   Cast = cast, Trailer = trailer\<rparr>])))"

definition recommend ::
  "api \<Rightarrow> index_labels \<Rightarrow> catalog \<Rightarrow> similarity_matrix \<Rightarrow> string \<Rightarrow> int \<Rightarrow>
   py_error + result list" where
  "recommend a idx movies similarity movie num_results =
     (case title_index idx movies movie of
        Inl e \<Rightarrow> Inl e
      | Inr index \<Rightarrow>
          (case np_row similarity index of
             Inl e \<Rightarrow> Inl e
           | Inr row \<Rightarrow> recommend_loop a movies (ranked row num_results) []))"

section \<open>Filtering by criteria\<close>

text \<open>
  The loop of \<^verbatim>\<open>filter_movies_by_criteria\<close> over the rows that are left, with the list
  \<^verbatim>\<open>matched\<close> and the requests sent so far as its state. Both requests of a row are sent
  before the row is tested. \<^verbatim>\<open>break\<close> ends the recursion, \<^verbatim>\<open>continue\<close> and the end of
  the body go on with the rest.
\<close>

datatype api_call = FetchDetails int | FetchTrailer int

fun filter_loop ::
  "api \<Rightarrow> string \<Rightarrow> string \<Rightarrow> real \<Rightarrow> int \<Rightarrow> movie list \<Rightarrow>
   result list \<times> api_call list \<Rightarrow> result list \<times> api_call list" where
  "filter_loop a genre cast min_rating num_results [] (matched, calls) = (matched, calls)"
| "filter_loop a genre cast min_rating num_results (m # rest) (matched, calls) =
     (let (poster, genres, rating, cast_list) = fetch_movie_details a (movie_id m);
          trailer = fetch_trailer a (movie_id m);
          calls' = calls @ [FetchDetails (movie_id m), FetchTrailer (movie_id m)]
      in if sublist (lower genre) (lower genres) \<and> sublist (lower cast) (lower cast_list) then
           (case py_float rating of
              Inl e \<Rightarrow> filter_loop a genre cast min_rating num_results rest (matched, calls')
            | Inr r \<Rightarrow>
                if r \<ge> min_rating then
                  (let matched' = matched @
                         [\<lparr>Title = title m, Poster = poster, Genres = genres, Rating = rating,
                           Cast = cast_list, Trailer = trailer\<rparr>]
                   in if int (length matched') \<ge> num_results then (matched', calls')
                      else filter_loop a genre cast min_rating num_results rest (matched', calls'))
                else filter_loop a genre cast min_rating num_results rest (matched, calls'))
         else filter_loop a genre cast min_rating num_results rest (matched, calls'))"

definition filter_run ::
  "api \<Rightarrow> catalog \<Rightarrow> string \<Rightarrow> string \<Rightarrow> real \<Rightarrow> int \<Rightarrow> result list \<times> api_call list" where
  "filter_run a movies genre cast min_rating num_results =
     filter_loop a genre cast min_rating num_results movies ([], [])"

definition filter_movies_by_criteria ::
  "api \<Rightarrow> catalog \<Rightarrow> string \<Rightarrow> string \<Rightarrow> real \<Rightarrow> int \<Rightarrow> result list" where
  "filter_movies_by_criteria a movies genre cast min_rating num_results =
     fst (filter_run a movies genre cast min_rating num_results)"

definition filter_calls ::
  "api \<Rightarrow> catalog \<Rightarrow> string \<Rightarrow> string \<Rightarrow> real \<Rightarrow> int \<Rightarrow> api_call list" where
  "filter_calls a movies genre cast min_rating num_results =
     snd (filter_run a movies genre cast min_rating num_results)"

section \<open>Notions used to state the properties\<close>

text \<open>The dictionary the two loops build for a movie.\<close>

definition enriched :: "api \<Rightarrow> movie \<Rightarrow> result" where
  "enriched a m =
     (let (poster, genres, rating, cast) = fetch_movie_details a (movie_id m)
      in \<lparr>Title = title m, Poster = poster, Genres = genres, Rating = rating, Cast = cast,
          Trailer = fetch_trailer a (movie_id m)\<rparr>)"

text \<open>The three tests a row must pass to be appended to \<^verbatim>\<open>matched\<close>.\<close>

definition matches :: "api \<Rightarrow> string \<Rightarrow> string \<Rightarrow> real \<Rightarrow> movie \<Rightarrow> bool" where
  "matches a genre cast min_rating m =
     (let (poster, genres, rating, cast_list) = fetch_movie_details a (movie_id m)
      in sublist (lower genre) (lower genres) \<and> sublist (lower cast) (lower cast_list) \<and>
         (case py_float rating of Inl e \<Rightarrow> False | Inr r \<Rightarrow> min_rating \<le> r))"

text \<open>The requests sent for one scanned row.\<close>

definition calls_of :: "movie \<Rightarrow> api_call list" where
  "calls_of m = [FetchDetails (movie_id m), FetchTrailer (movie_id m)]"

text \<open>
  How many further matches end the scan when \<^verbatim>\<open>matched\<close> already holds \<open>have\<close>
  entries: the length is compared only after an entry was appended, so at least one.
\<close>

definition wanted :: "int \<Rightarrow> nat \<Rightarrow> nat" where
  "wanted num_results have = nat (max 1 (num_results - int have))"

text \<open>
  The order of the ranking: a higher score first and, at equal scores, the earlier
  catalog position first.
\<close>

definition ranks_before :: "nat \<times> real \<Rightarrow> nat \<times> real \<Rightarrow> bool" where
  "ranks_before x y = (snd y < snd x \<or> (snd x = snd y \<and> fst x < fst y))"

text \<open>
  The index of the frame is the default one: the label of every row is its position,
  \<open>0\<close> to \<open>length movies - 1\<close>.
\<close>

definition default_index :: "index_labels \<Rightarrow> catalog \<Rightarrow> bool" where
  "default_index idx movies = (idx = map int [0..<length movies])"

text \<open>The similarity matrix is square and as large as the catalog.\<close>

definition matching_dimensions :: "catalog \<Rightarrow> similarity_matrix \<Rightarrow> bool" where
  "matching_dimensions movies similarity =
     (length similarity = length movies \<and>
      (\<forall>row \<in> set similarity. length row = length movies))"

text \<open>
  The score of position \<open>p\<close> in its own row is the largest of the row, and strictly
  larger than every score at an earlier position.
\<close>

definition self_ranks_first :: "real list \<Rightarrow> nat \<Rightarrow> bool" where
  "self_ranks_first row p =
     (\<forall>j \<in> set [0..<length row]. row ! j \<le> row ! p \<and> (j < p \<longrightarrow> row ! j < row ! p))"

text \<open>What \<^verbatim>\<open>rating\<close> must be for \<^verbatim>\<open>float(rating) >= min_rating\<close> to hold.\<close>

definition rated_at_least :: "api \<Rightarrow> real \<Rightarrow> movie \<Rightarrow> bool" where
  "rated_at_least a min_rating m =
     (case Rating (enriched a m) of Num r \<Rightarrow> min_rating \<le> r | NA \<Rightarrow> False)"

text \<open>The test of \<^verbatim>\<open>fetch_trailer\<close> on an entry, and the entries on which it raises.\<close>

definition is_youtube_trailer :: "video \<Rightarrow> bool" where
  "is_youtube_trailer v =
     (video_type v = Some ''Trailer'' \<and> video_site v = Some ''YouTube'')"

definition raises_key_error :: "video \<Rightarrow> bool" where
  "raises_key_error v =
     (video_type v = None \<or>
      (video_type v = Some ''Trailer'' \<and>
       (video_site v = None \<or> (video_site v = Some ''YouTube'' \<and> video_key v = None))))"

section \<open>Example data\<close>

text \<open>
  A catalog of three movies with a symmetric similarity matrix. The service knows the
  first movie fully, knows the second without a vote average, and knows the third
  without genres; the video request succeeds for the first movie only.
\<close>

definition ex_movies :: catalog where
  "ex_movies =
     [\<lparr>movie_id = 1, title = ''A''\<rparr>, \<lparr>movie_id = 2, title = ''B''\<rparr>,
      \<lparr>movie_id = 3, title = ''C''\<rparr>]"

text \<open>
  The default index of the example catalog, and the index the same three rows have in
  a frame from which the row labelled 1 was dropped.
\<close>

definition ex_index :: index_labels where
  "ex_index = [0, 1, 2]"

definition gap_index :: index_labels where
  "gap_index = [0, 2, 3]"

definition ex_similarity :: similarity_matrix where
  "ex_similarity = [[1, 4/5, 3/10], [4/5, 1, 3/10], [3/10, 3/10, 1]]"

definition ex_videos :: "video list" where
  "ex_videos =
     [\<lparr>video_type = Some ''Teaser'', video_site = None, video_key = Some ''t1''\<rparr>,
      \<lparr>video_type = Some ''Trailer'', video_site = Some ''Vimeo'', video_key = Some ''v2''\<rparr>,
      \<lparr>video_type = Some ''Trailer'', video_site = Some ''YouTube'', video_key = Some ''y3''\<rparr>,
      \<lparr>video_type = Some ''Trailer'', video_site = Some ''YouTube'', video_key = Some ''y4''\<rparr>]"

definition ex_api :: api where
  "ex_api =
     \<lparr>movie_response = (\<lambda>mid.
        if mid = 1 then
          Json \<lparr>json_poster_path = Some ''a.jpg'',
                json_genres = Some [Some ''Action'', Some ''Drama''],
                json_vote_average = Some 7,
                json_credits_cast = Some [Some ''Ann Lee'', Some ''Bo Diaz'']\<rparr>
        else if mid = 2 then
          Json \<lparr>json_poster_path = None,
                json_genres = Some [Some ''Comedy''],
                json_vote_average = None,
                json_credits_cast = Some [Some ''Cy Moss'']\<rparr>
        else if mid = 3 then
          Json \<lparr>json_poster_path = Some ''c.jpg'',
                json_genres = None,
                json_vote_average = Some 6,
                json_credits_cast = None\<rparr>
        else Failed),
      videos_response = (\<lambda>mid. if mid = 1 then Json (Some ex_videos) else Failed)\<rparr>"

text \<open>Two movies with the same feature vector: every score is 1.\<close>

definition twin_movies :: catalog where
  "twin_movies = [\<lparr>movie_id = 1, title = ''A''\<rparr>, \<lparr>movie_id = 2, title = ''B''\<rparr>]"

definition twin_similarity :: similarity_matrix where
  "twin_similarity = [[1, 1], [1, 1]]"

definition twin_index :: index_labels where
  "twin_index = [0, 1]"

section \<open>The filter loop\<close>

lemma filter_loop_step:
  "filter_loop a g c mr n (m # rest) (matched, calls) =
     (if matches a g c mr m then
        (if n \<le> int (length matched) + 1 then (matched @ [enriched a m], calls @ calls_of m)
         else filter_loop a g c mr n rest (matched @ [enriched a m], calls @ calls_of m))
      else filter_loop a g c mr n rest (matched, calls @ calls_of m))"
  by (cases "fetch_movie_details a (movie_id m)")
     (auto simp: matches_def enriched_def calls_of_def Let_def split: sum.splits)

lemma filter_loop_results:
  "fst (filter_loop a g c mr n ms (matched, calls)) =
     matched @ map (enriched a) (take (wanted n (length matched)) (filter (matches a g c mr) ms))"
proof (induction ms arbitrary: matched calls)
  case Nil
  show ?case by simp
next
  case (Cons m ms)
  show ?case
  proof (cases "matches a g c mr m")
    case False
    then show ?thesis using Cons.IH by (simp only: filter_loop_step) simp
  next
    case True
    show ?thesis
    proof (cases "n \<le> int (length matched) + 1")
      case stop: True
      then have "wanted n (length matched) = 1" unfolding wanted_def by linarith
      with True stop show ?thesis by (simp only: filter_loop_step) simp
    next
      case go: False
      then have "wanted n (length matched) = Suc (wanted n (Suc (length matched)))"
        unfolding wanted_def by linarith
      with True go show ?thesis using Cons.IH by (simp only: filter_loop_step) simp
    qed
  qed
qed

lemma filter_loop_calls:
  "int (length matched) < n \<Longrightarrow>
   \<exists>j \<le> length ms. snd (filter_loop a g c mr n ms (matched, calls)) =
       calls @ concat (map calls_of (take j ms)) \<and>
     (\<forall>i < j. int (length matched + length (filter (matches a g c mr) (take i ms))) < n)"
proof (induction ms arbitrary: matched calls)
  case Nil
  show ?case by simp
next
  case (Cons m ms)
  let ?M = "matches a g c mr"
  show ?case
  proof (cases "?M m \<and> n \<le> int (length matched) + 1")
    case True
    then have "snd (filter_loop a g c mr n (m # ms) (matched, calls)) =
        calls @ concat (map calls_of (take 1 (m # ms)))"
      by (simp only: filter_loop_step) simp
    moreover have "\<forall>i < (1::nat). int (length matched + length (filter ?M (take i (m # ms)))) < n"
      using Cons.prems by simp
    ultimately show ?thesis by (intro exI [of _ 1]) simp
  next
    case False
    define matched' where "matched' = (if ?M m then matched @ [enriched a m] else matched)"
    have len: "length matched' = length matched + length (filter ?M [m])"
      by (simp add: matched'_def)
    have small: "int (length matched') < n"
      using False Cons.prems by (auto simp: matched'_def)
    have step: "filter_loop a g c mr n (m # ms) (matched, calls) =
        filter_loop a g c mr n ms (matched', calls @ calls_of m)"
      using False by (simp only: filter_loop_step matched'_def) auto
    from Cons.IH [OF small, of "calls @ calls_of m"]
    obtain j where j: "j \<le> length ms"
      "snd (filter_loop a g c mr n ms (matched', calls @ calls_of m)) =
         (calls @ calls_of m) @ concat (map calls_of (take j ms))"
      "\<forall>i < j. int (length matched' + length (filter ?M (take i ms))) < n"
      by blast
    have "\<forall>i < Suc j. int (length matched + length (filter ?M (take i (m # ms)))) < n"
    proof (intro allI impI)
      fix i assume "i < Suc j"
      show "int (length matched + length (filter ?M (take i (m # ms)))) < n"
      proof (cases i)
        case 0
        then show ?thesis using Cons.prems by simp
      next
        case (Suc i')
        with \<open>i < Suc j\<close> j(3) have "int (length matched' + length (filter ?M (take i' ms))) < n"
          by simp
        then show ?thesis using Suc len by (simp split: if_splits)
      qed
    qed
    moreover have "snd (filter_loop a g c mr n (m # ms) (matched, calls)) =
        calls @ concat (map calls_of (take (Suc j) (m # ms)))"
      using step j(2) by simp
    ultimately show ?thesis using j(1) by (intro exI [of _ "Suc j"]) simp
  qed
qed

section \<open>The ranking\<close>

lemma insort_key_ranks:
  fixes w :: "nat \<times> real"
  assumes "sorted_wrt (\<lambda>x y. ranks_before y x) zs" and "\<forall>y \<in> set zs. fst y < fst w"
  shows "sorted_wrt (\<lambda>x y. ranks_before y x) (insort_key snd w zs)"
  using assms
proof (induction zs)
  case Nil
  show ?case by simp
next
  case (Cons z zs)
  show ?case
  proof (cases "snd w \<le> snd z")
    case True
    have "\<forall>y \<in> set (z # zs). ranks_before y w"
    proof
      fix y assume y: "y \<in> set (z # zs)"
      have "snd z \<le> snd y" using y Cons.prems(1) by (auto simp: ranks_before_def)
      with True have "snd w \<le> snd y" by simp
      moreover have "fst y < fst w" using y Cons.prems(2) by blast
      ultimately show "ranks_before y w" by (auto simp: ranks_before_def)
    qed
    with True Cons.prems(1) show ?thesis by simp
  next
    case False
    then have "ranks_before w z" by (simp add: ranks_before_def)
    moreover have "sorted_wrt (\<lambda>x y. ranks_before y x) (insort_key snd w zs)"
      using Cons by simp
    ultimately show ?thesis using False Cons.prems(1) by (auto simp: set_insort_key)
  qed
qed

lemma sort_key_ranks:
  fixes ws :: "(nat \<times> real) list"
  assumes "sorted_wrt (\<lambda>x y. fst y < fst x) ws"
  shows "sorted_wrt (\<lambda>x y. ranks_before y x) (sort_key snd ws)"
  using assms
proof (induction ws)
  case Nil
  show ?case by simp
next
  case (Cons w ws)
  then show ?case by (simp add: insort_key_ranks)
qed

lemma distances_sorted: "sorted_wrt ranks_before (distances_of row)"
proof -
  have "sorted_wrt (<) (map fst (enumerate 0 row))" by simp
  then have "sorted_wrt (\<lambda>x y. fst x < fst y) (enumerate 0 row)"
    by (simp only: sorted_wrt_map)
  then have "sorted_wrt (\<lambda>x y. fst y < fst x) (rev (enumerate 0 row))"
    by (simp add: sorted_wrt_rev)
  then have "sorted_wrt (\<lambda>x y. ranks_before y x) (sort_key snd (rev (enumerate 0 row)))"
    by (rule sort_key_ranks)
  then show ?thesis by (simp add: distances_of_def py_sorted_reverse_def sorted_wrt_rev)
qed

lemma set_distances: "set (distances_of row) = set (enumerate 0 row)"
  by (simp add: distances_of_def py_sorted_reverse_def)

lemma length_distances: "length (distances_of row) = length row"
  by (simp add: distances_of_def py_sorted_reverse_def)

lemma distinct_fst_distances: "distinct (map fst (distances_of row))"
proof -
  have "distinct (map fst (enumerate 0 row))" by simp
  then have "inj_on fst (set (enumerate 0 row))" by (simp only: distinct_map)
  moreover have "distinct (distances_of row)"
    by (simp add: distances_of_def py_sorted_reverse_def)
  ultimately show ?thesis by (simp add: distinct_map set_distances)
qed

lemma ranked_eq:
  "0 \<le> n \<Longrightarrow> ranked row n = drop 1 (take (Suc (nat n)) (distances_of row))"
  by (cases "nat n < length row")
     (auto simp: ranked_def py_slice_def slice_bound_def length_distances min_def nat_add_distrib)

lemma ranked_sublist: "\<exists>i j. ranked row n = drop i (take j (distances_of row))"
  unfolding ranked_def py_slice_def by blast

lemma ranked_sorted: "sorted_wrt ranks_before (ranked row n)"
  using ranked_sublist [of row n] distances_sorted [of row] by auto

lemma set_ranked: "set (ranked row n) \<subseteq> set (enumerate 0 row)"
proof -
  obtain i j where "ranked row n = drop i (take j (distances_of row))"
    using ranked_sublist by blast
  then have "set (ranked row n) \<subseteq> set (distances_of row)"
    by (metis set_drop_subset set_take_subset subset_trans)
  then show ?thesis by (simp add: set_distances)
qed

lemma ranked_entry:
  assumes "x \<in> set (ranked row n)"
  shows "fst x < length row \<and> snd x = row ! fst x"
  using assms set_ranked [of row n] by (auto simp: in_set_enumerate_eq)

lemma length_ranked:
  "0 \<le> n \<Longrightarrow> length (ranked row n) = min (nat n) (length row - 1)"
  by (auto simp: ranked_eq length_distances)

lemma hd_distances:
  assumes "p < length row" and "self_ranks_first row p"
  shows "\<exists>rest. distances_of row = (p, row ! p) # rest"
proof (cases "distances_of row")
  case Nil
  with assms(1) length_distances [of row] show ?thesis by simp
next
  case (Cons x rest)
  have mem: "(p, row ! p) \<in> set (distances_of row)"
    using assms(1) by (simp add: set_distances in_set_enumerate_eq)
  have "x \<in> set (distances_of row)" using Cons by simp
  then have x: "fst x < length row" "snd x = row ! fst x"
    by (simp_all add: set_distances in_set_enumerate_eq)
  have "x = (p, row ! p)"
  proof (rule ccontr)
    assume neq: "x \<noteq> (p, row ! p)"
    with mem Cons have "(p, row ! p) \<in> set rest" by auto
    moreover have "sorted_wrt ranks_before (x # rest)"
      using distances_sorted [of row] Cons by simp
    ultimately have "ranks_before x (p, row ! p)" by simp
    then have "row ! p < row ! fst x \<or> (row ! fst x = row ! p \<and> fst x < p)"
      using x by (auto simp: ranks_before_def)
    moreover have "row ! fst x \<le> row ! p" "fst x < p \<longrightarrow> row ! fst x < row ! p"
      using assms(2) x(1) by (auto simp: self_ranks_first_def)
    ultimately show False by auto
  qed
  with Cons show ?thesis by simp
qed

lemma self_not_ranked:
  assumes "p < length row" and "self_ranks_first row p" and "0 \<le> n"
  shows "p \<notin> fst ` set (ranked row n)"
proof -
  obtain rest where rest: "distances_of row = (p, row ! p) # rest"
    using hd_distances [OF assms(1,2)] by blast
  have "distinct (map fst ((p, row ! p) # rest))"
    using distinct_fst_distances [of row] rest by simp
  then have "p \<notin> fst ` set rest" by simp
  moreover have "ranked row n = take (nat n) rest"
    using assms(3) rest by (simp add: ranked_eq)
  ultimately show ?thesis by (auto dest: in_set_takeD)
qed

lemma recommend_loop_ok:
  "\<forall>i \<in> set sel. fst i < length movies \<Longrightarrow>
   recommend_loop a movies sel recs = Inr (recs @ map (\<lambda>i. enriched a (movies ! fst i)) sel)"
proof (induction sel arbitrary: recs)
  case Nil
  show ?case by simp
next
  case (Cons i sel)
  then show ?case
    by (cases "fetch_movie_details a (movie_id (movies ! fst i))")
       (simp add: iloc_def enriched_def)
qed

lemma title_index_absent:
  assumes "t \<notin> set (map title movies)"
  shows "title_index idx movies t = Inl IndexError"
proof -
  have "filter (\<lambda>row. title (snd row) = t) (zip idx movies) = []"
    using assms by (auto simp: filter_empty_conv dest: set_zip_rightD)
  then show ?thesis by (simp add: title_index_def)
qed

lemma first_position_exists:
  assumes "t \<in> set (map title movies)"
  shows "\<exists>p < length movies. title (movies ! p) = t \<and> (\<forall>j < p. title (movies ! j) \<noteq> t)"
proof -
  let ?P = "\<lambda>i. i < length movies \<and> title (movies ! i) = t"
  from assms obtain i where "?P i" by (auto simp: in_set_conv_nth)
  then have least: "?P (LEAST i. ?P i)" by (rule LeastI)
  have "\<forall>j < (LEAST i. ?P i). title (movies ! j) \<noteq> t"
  proof (intro allI impI notI)
    fix j assume j: "j < (LEAST i. ?P i)" and "title (movies ! j) = t"
    with least have "?P j" by simp
    with j show False using not_less_Least by blast
  qed
  with least show ?thesis by blast
qed

lemma title_index_default:
  assumes "default_index idx movies" and "p < length movies" and "title (movies ! p) = t"
    and "\<forall>j < p. title (movies ! j) \<noteq> t"
  shows "title_index idx movies t = Inr (int p)"
proof -
  let ?n = "length movies"
  let ?Q = "\<lambda>i. title (movies ! i) = t"
  have z: "zip idx movies = map (\<lambda>i. (int i, movies ! i)) [0..<?n]"
    using assms(1) by (auto simp: default_index_def intro!: nth_equalityI)
  have "[0..<?n] = [0..<p] @ [p..<?n]"
    using assms(2) upt_add_eq_append [of 0 p "?n - p"] by simp
  also have "[p..<?n] = p # [Suc p..<?n]" using assms(2) by (rule upt_conv_Cons)
  finally have split: "[0..<?n] = [0..<p] @ p # [Suc p..<?n]" .
  have "filter ?Q [0..<p] = []" using assms(4) by (auto simp: filter_empty_conv)
  then have "filter ?Q [0..<?n] = p # filter ?Q [Suc p..<?n]"
    using assms(3) by (simp add: split)
  then have "filter (\<lambda>row. title (snd row) = t) (zip idx movies) =
      (int p, movies ! p) # map (\<lambda>i. (int i, movies ! i)) (filter ?Q [Suc p..<?n])"
    by (simp add: z filter_map comp_def)
  then show ?thesis by (simp add: title_index_def)
qed

lemma np_row_position:
  "p < length similarity \<Longrightarrow> np_row similarity (int p) = Inr (similarity ! p)"
  by (simp add: np_row_def)

lemma recommend_valid:
  assumes "default_index idx movies" and "p < length movies" and "title (movies ! p) = t"
    and "\<forall>j < p. title (movies ! j) \<noteq> t" and "matching_dimensions movies similarity"
  shows "recommend a idx movies similarity t n =
           Inr (map (\<lambda>i. enriched a (movies ! fst i)) (ranked (similarity ! p) n))"
proof -
  have idx: "title_index idx movies t = Inr (int p)"
    using assms(1-4) by (rule title_index_default)
  have row: "np_row similarity (int p) = Inr (similarity ! p)"
    "length (similarity ! p) = length movies"
    using assms(2,5) by (auto simp: matching_dimensions_def np_row_position)
  have "\<forall>i \<in> set (ranked (similarity ! p) n). fst i < length movies"
    using ranked_entry [of _ "similarity ! p" n] row(2) by auto
  then show ?thesis
    using idx row(1) by (simp add: recommend_def recommend_loop_ok)
qed

section \<open>Facts about the dictionaries, the tests and the trailer loop\<close>

lemma enriched_fields:
  "fetch_movie_details a (movie_id m) = (poster, genres, rating, cast) \<Longrightarrow>
   Genres (enriched a m) = genres \<and> Rating (enriched a m) = rating \<and> Cast (enriched a m) = cast"
  by (simp add: enriched_def)

lemma matches_iff:
  "matches a g c mr m \<longleftrightarrow>
     sublist (lower g) (lower (Genres (enriched a m))) \<and>
     sublist (lower c) (lower (Cast (enriched a m))) \<and> rated_at_least a mr m"
  by (cases "fetch_movie_details a (movie_id m)")
     (auto simp: matches_def rated_at_least_def enriched_def split: rating.splits)

lemma rated_at_least_iff:
  "rated_at_least a mr m \<longleftrightarrow> (\<exists>r. py_float (Rating (enriched a m)) = Inr r \<and> mr \<le> r)"
  by (cases "Rating (enriched a m)") (auto simp: rated_at_least_def)

lemma filter_movies_by_criteria_eq:
  "filter_movies_by_criteria a movies g c mr n =
     map (enriched a) (take (wanted n 0) (filter (matches a g c mr) movies))"
  using filter_loop_results [of a g c mr n movies "[]" "[]"]
  by (simp add: filter_movies_by_criteria_def filter_run_def)

lemma sublist_Nil_lower: "sublist (lower []) s"
  by (simp add: lower_def)

lemma trailer_loop_no_match:
  "find is_youtube_trailer vs = None \<Longrightarrow>
   trailer_loop vs = Inl KeyError \<or> trailer_loop vs = Inr ''https://youtube.com''"
  by (induction vs) (auto simp: is_youtube_trailer_def split: option.splits if_splits)

lemma trailer_loop_match:
  "find is_youtube_trailer vs = Some v \<Longrightarrow>
   trailer_loop vs =
     (if list_ex raises_key_error (takeWhile (\<lambda>x. \<not> is_youtube_trailer x) vs @ [v])
      then Inl KeyError else Inr (''https://www.youtube.com/watch?v='' @ the (video_key v)))"
proof (induction vs)
  case Nil
  then show ?case by simp
next
  case (Cons x vs)
  show ?case
  proof (cases "is_youtube_trailer x")
    case True
    with Cons.prems have "x = v" by simp
    with True show ?thesis
      by (auto simp: is_youtube_trailer_def raises_key_error_def split: option.splits)
  next
    case False
    with Cons.prems have "find is_youtube_trailer vs = Some v" by simp
    from Cons.IH [OF this] False show ?thesis
      by (auto simp: is_youtube_trailer_def raises_key_error_def split: option.splits)
  qed
qed

section \<open>Properties of \<^verbatim>\<open>recommend\<close>\<close>

text \<open>
  Claim C1, as amended. Take a catalog whose index is the default one, a similarity
  matrix of the catalog's dimensions, a title \<open>t\<close> that is in the catalog and a count
  \<open>n\<close> between 1 and the catalog size minus 1. Let \<open>p\<close> be the first position whose
  title is \<open>t\<close>. Then \<^verbatim>\<open>recommend\<close> returns exactly \<open>n\<close> results, built in order from
  the entries \<open>ranked\<close> selects from row \<open>p\<close>. The code removes the entry ranked
  first, not the entry of the title: position \<open>p\<close> is absent from the results whenever
  its own score ranks first, that is, is the largest of row \<open>p\<close> and strictly larger
  than the scores at earlier positions.
\<close>

theorem recommend_count_and_self:
  assumes "default_index idx movies" and "t \<in> set (map title movies)"
    and "matching_dimensions movies similarity"
    and "1 \<le> n" and "n \<le> int (length movies) - 1"
  shows "\<exists>p < length movies.
           title (movies ! p) = t \<and> (\<forall>j < p. title (movies ! j) \<noteq> t) \<and>
           recommend a idx movies similarity t n =
             Inr (map (\<lambda>i. enriched a (movies ! fst i)) (ranked (similarity ! p) n)) \<and>
           length (ranked (similarity ! p) n) = nat n \<and>
           (self_ranks_first (similarity ! p) p \<longrightarrow> p \<notin> fst ` set (ranked (similarity ! p) n))"
proof -
  obtain p where p: "p < length movies" "title (movies ! p) = t"
      "\<forall>j < p. title (movies ! j) \<noteq> t"
    using first_position_exists [OF assms(2)] by blast
  from p(1) assms(3) have len: "length (similarity ! p) = length movies"
    by (simp add: matching_dimensions_def)
  have "length (ranked (similarity ! p) n) = nat n"
    using assms(4,5) len by (simp add: length_ranked)
  moreover have "self_ranks_first (similarity ! p) p \<longrightarrow>
      p \<notin> fst ` set (ranked (similarity ! p) n)"
    using self_not_ranked [of p "similarity ! p" n] p(1) len assms(4) by simp
  moreover have "recommend a idx movies similarity t n =
      Inr (map (\<lambda>i. enriched a (movies ! fst i)) (ranked (similarity ! p) n))"
    using assms(1) p assms(3) by (rule recommend_valid)
  ultimately show ?thesis using p by blast
qed

text \<open>The same at the first movie of the example catalog, with two results.\<close>

theorem recommend_count_and_self_witness:
  "default_index ex_index ex_movies \<and> ''A'' \<in> set (map title ex_movies) \<and>
   matching_dimensions ex_movies ex_similarity \<and>
   (1::int) \<le> 2 \<and> (2::int) \<le> int (length ex_movies) - 1 \<and>
   title (ex_movies ! 0) = ''A'' \<and> self_ranks_first (ex_similarity ! 0) 0 \<and>
   recommend ex_api ex_index ex_movies ex_similarity ''A'' 2 =
     Inr (map (\<lambda>i. enriched ex_api (ex_movies ! fst i)) (ranked (ex_similarity ! 0) 2)) \<and>
   length (ranked (ex_similarity ! 0) 2) = 2 \<and>
   0 \<notin> fst ` set (ranked (ex_similarity ! 0) 2)"
proof -
  have h0: "default_index ex_index ex_movies" by code_simp
  have h1: "''A'' \<in> set (map title ex_movies)" by (simp add: ex_movies_def)
  have h2: "matching_dimensions ex_movies ex_similarity" by code_simp
  have h3: "(1::int) \<le> 2" by simp
  have h4: "(2::int) \<le> int (length ex_movies) - 1" by (simp add: ex_movies_def)
  have h5: "self_ranks_first (ex_similarity ! 0) 0" by code_simp
  have h6: "title (ex_movies ! 0) = ''A''" by (simp add: ex_movies_def)
  from recommend_count_and_self [OF h0 h1 h2 h3 h4, of ex_api]
  obtain p where p: "p < length ex_movies" "title (ex_movies ! p) = ''A''"
    and r: "recommend ex_api ex_index ex_movies ex_similarity ''A'' 2 =
        Inr (map (\<lambda>i. enriched ex_api (ex_movies ! fst i)) (ranked (ex_similarity ! p) 2))"
      "length (ranked (ex_similarity ! p) 2) = nat 2"
      "self_ranks_first (ex_similarity ! p) p \<longrightarrow> p \<notin> fst ` set (ranked (ex_similarity ! p) 2)"
    by blast
  have "p = 0" using p by (auto simp: ex_movies_def numeral_3_eq_3 less_Suc_eq)
  with r h5 have "recommend ex_api ex_index ex_movies ex_similarity ''A'' 2 =
        Inr (map (\<lambda>i. enriched ex_api (ex_movies ! fst i)) (ranked (ex_similarity ! 0) 2)) \<and>
      length (ranked (ex_similarity ! 0) 2) = 2 \<and>
      0 \<notin> fst ` set (ranked (ex_similarity ! 0) 2)"
    by simp
  with h0 h1 h2 h3 h4 h5 h6 show ?thesis by blast
qed

text \<open>
  Claim C1 as it is written fails. With two movies whose scores are all 1 and the
  default index, the stable sort ranks position 0 first, so that asking for one movie
  similar to the movie at position 1 returns that very movie. And with the index
  \<open>[0, 2, 3]\<close> the label of \<^verbatim>\<open>'B'\<close> is 2, the row of the third movie is ranked, and
  asking for two movies similar to \<^verbatim>\<open>'B'\<close> returns \<^verbatim>\<open>'A'\<close> and \<^verbatim>\<open>'B'\<close> itself,
  although the own score of \<^verbatim>\<open>'B'\<close> ranks first in its row.
\<close>

theorem recommend_self_counterexample:
  "default_index twin_index twin_movies \<and> matching_dimensions twin_movies twin_similarity \<and>
   title (twin_movies ! 1) = ''B'' \<and>
   recommend ex_api twin_index twin_movies twin_similarity ''B'' 1 =
     Inr [enriched ex_api (twin_movies ! 1)] \<and>
   Title (enriched ex_api (twin_movies ! 1)) = ''B'' \<and>
   matching_dimensions ex_movies ex_similarity \<and> title (ex_movies ! 1) = ''B'' \<and>
   self_ranks_first (ex_similarity ! 1) 1 \<and>
   recommend ex_api gap_index ex_movies ex_similarity ''B'' 2 =
     Inr [enriched ex_api (ex_movies ! 0), enriched ex_api (ex_movies ! 1)]"
  by code_simp

text \<open>
  Claim C2, as amended. Take a catalog whose index is the default one, a similarity
  matrix of the catalog's dimensions and a title \<open>t\<close> that is in the catalog, and let
  \<open>p\<close> be the first position whose title is \<open>t\<close>. For every count, the results of
  \<^verbatim>\<open>recommend\<close> are built in order from entries (position, score) whose score is the
  one of that position in row \<open>p\<close>; along the sequence the scores never increase, and
  of two entries with the same score the one at the earlier catalog position comes
  first.
\<close>

theorem recommend_order:
  assumes "default_index idx movies" and "t \<in> set (map title movies)"
    and "matching_dimensions movies similarity"
  shows "\<exists>p < length movies.
           title (movies ! p) = t \<and> (\<forall>j < p. title (movies ! j) \<noteq> t) \<and>
           recommend a idx movies similarity t n =
             Inr (map (\<lambda>i. enriched a (movies ! fst i)) (ranked (similarity ! p) n)) \<and>
           (\<forall>x \<in> set (ranked (similarity ! p) n). snd x = similarity ! p ! fst x) \<and>
           sorted_wrt (\<lambda>x y. snd y \<le> snd x) (ranked (similarity ! p) n) \<and>
           sorted_wrt (\<lambda>x y. snd x = snd y \<longrightarrow> fst x < fst y) (ranked (similarity ! p) n)"
proof -
  obtain p where p: "p < length movies" "title (movies ! p) = t"
      "\<forall>j < p. title (movies ! j) \<noteq> t"
    using first_position_exists [OF assms(2)] by blast
  let ?sel = "ranked (similarity ! p) n"
  have "sorted_wrt (\<lambda>x y. snd y \<le> snd x) ?sel"
    by (rule sorted_wrt_mono_rel [OF _ ranked_sorted]) (auto simp: ranks_before_def)
  moreover have "sorted_wrt (\<lambda>x y. snd x = snd y \<longrightarrow> fst x < fst y) ?sel"
    by (rule sorted_wrt_mono_rel [OF _ ranked_sorted]) (auto simp: ranks_before_def)
  moreover have "\<forall>x \<in> set ?sel. snd x = similarity ! p ! fst x"
    using ranked_entry by blast
  moreover have "recommend a idx movies similarity t n =
      Inr (map (\<lambda>i. enriched a (movies ! fst i)) ?sel)"
    using assms(1) p assms(3) by (rule recommend_valid)
  ultimately show ?thesis using p by blast
qed

text \<open>The same at the third movie of the example catalog, whose two results have the
  same score.\<close>

theorem recommend_order_witness:
  "default_index ex_index ex_movies \<and> ''C'' \<in> set (map title ex_movies) \<and>
   matching_dimensions ex_movies ex_similarity \<and> title (ex_movies ! 2) = ''C'' \<and>
   ranked (ex_similarity ! 2) 2 = [(0, 3/10), (1, 3/10)] \<and>
   recommend ex_api ex_index ex_movies ex_similarity ''C'' 2 =
     Inr (map (\<lambda>i. enriched ex_api (ex_movies ! fst i)) (ranked (ex_similarity ! 2) 2)) \<and>
   list_all (\<lambda>x. snd x = ex_similarity ! 2 ! fst x) (ranked (ex_similarity ! 2) 2) \<and>
   sorted_wrt (\<lambda>x y. snd y \<le> snd x) (ranked (ex_similarity ! 2) 2) \<and>
   sorted_wrt (\<lambda>x y. snd x = snd y \<longrightarrow> fst x < fst y) (ranked (ex_similarity ! 2) 2)"
proof -
  have h0: "default_index ex_index ex_movies" by code_simp
  have h1: "''C'' \<in> set (map title ex_movies)" by (simp add: ex_movies_def)
  have h2: "matching_dimensions ex_movies ex_similarity" by code_simp
  have h3: "title (ex_movies ! 2) = ''C''" by (simp add: ex_movies_def)
  have r: "ranked (ex_similarity ! 2) 2 = [(0, 3/10), (1, 3/10)]" by code_simp
  from recommend_order [OF h0 h1 h2, of ex_api 2]
  obtain p where p: "p < length ex_movies" "title (ex_movies ! p) = ''C''"
    and c: "recommend ex_api ex_index ex_movies ex_similarity ''C'' 2 =
        Inr (map (\<lambda>i. enriched ex_api (ex_movies ! fst i)) (ranked (ex_similarity ! p) 2))"
      "\<forall>x \<in> set (ranked (ex_similarity ! p) 2). snd x = ex_similarity ! p ! fst x"
      "sorted_wrt (\<lambda>x y. snd y \<le> snd x) (ranked (ex_similarity ! p) 2)"
      "sorted_wrt (\<lambda>x y. snd x = snd y \<longrightarrow> fst x < fst y) (ranked (ex_similarity ! p) 2)"
    by blast
  have "p = 2" using p by (auto simp: ex_movies_def numeral_3_eq_3 less_Suc_eq)
  with c have "recommend ex_api ex_index ex_movies ex_similarity ''C'' 2 =
     Inr (map (\<lambda>i. enriched ex_api (ex_movies ! fst i)) (ranked (ex_similarity ! 2) 2)) \<and>
   list_all (\<lambda>x. snd x = ex_similarity ! 2 ! fst x) (ranked (ex_similarity ! 2) 2) \<and>
   sorted_wrt (\<lambda>x y. snd y \<le> snd x) (ranked (ex_similarity ! 2) 2) \<and>
   sorted_wrt (\<lambda>x y. snd x = snd y \<longrightarrow> fst x < fst y) (ranked (ex_similarity ! 2) 2)"
    by (simp add: list_all_iff)
  with h0 h1 h2 h3 r show ?thesis by blast
qed

text \<open>
  Claim C2 as it is written fails: the code uses the index label of the title as a row
  number of the matrix. With the index \<open>[0, 2, 3]\<close> the label of \<^verbatim>\<open>'B'\<close> is 2, the
  results are ranked by the scores of the third movie, and \<^verbatim>\<open>'A'\<close> comes before
  \<^verbatim>\<open>'B'\<close> although its score relative to \<^verbatim>\<open>'B'\<close> is the smaller one.
\<close>

theorem recommend_order_counterexample:
  "''B'' \<in> set (map title ex_movies) \<and> matching_dimensions ex_movies ex_similarity \<and>
   title (ex_movies ! 1) = ''B'' \<and>
   recommend ex_api gap_index ex_movies ex_similarity ''B'' 2 =
     Inr [enriched ex_api (ex_movies ! 0), enriched ex_api (ex_movies ! 1)] \<and>
   ex_similarity ! 1 ! 0 < ex_similarity ! 1 ! 1"
  by code_simp

text \<open>
  Claim C5. For a title that no movie of the catalog has, \<^verbatim>\<open>recommend\<close> returns no
  result sequence: it raises, whatever the count and whatever the index labels, the
  error of \<^verbatim>\<open>.index[0]\<close> on an empty selection, which is Python's \<^verbatim>\<open>IndexError\<close>.
\<close>

theorem recommend_unknown_title:
  assumes "t \<notin> set (map title movies)"
  shows "recommend a idx movies similarity t n = Inl IndexError"
  using title_index_absent [OF assms] by (simp add: recommend_def)

text \<open>The same for a title that the example catalog does not have.\<close>

theorem recommend_unknown_title_witness:
  "''Z'' \<notin> set (map title ex_movies) \<and>
   recommend ex_api ex_index ex_movies ex_similarity ''Z'' 5 = Inl IndexError"
proof -
  have h: "''Z'' \<notin> set (map title ex_movies)" by (simp add: ex_movies_def)
  from recommend_unknown_title [OF h] h show ?thesis by blast
qed

text \<open>
  Claim C10, as amended. For a catalog whose index is the default one, a similarity
  matrix of the catalog's dimensions, a title that is in the catalog and a count that
  is at least the catalog size, \<^verbatim>\<open>recommend\<close> does not raise and returns exactly one
  result less than the catalog has movies.
\<close>

theorem recommend_count_clipped:
  assumes "default_index idx movies" and "t \<in> set (map title movies)"
    and "matching_dimensions movies similarity" and "int (length movies) \<le> n"
  shows "\<exists>rs. recommend a idx movies similarity t n = Inr rs \<and>
           length rs = length movies - 1"
proof -
  obtain p where p: "p < length movies" "title (movies ! p) = t"
      "\<forall>j < p. title (movies ! j) \<noteq> t"
    using first_position_exists [OF assms(2)] by blast
  from p(1) assms(3) have len: "length (similarity ! p) = length movies"
    by (simp add: matching_dimensions_def)
  have "length (ranked (similarity ! p) n) = length movies - 1"
    using assms(4) len by (simp add: length_ranked)
  then show ?thesis using recommend_valid [OF assms(1) p assms(3), of a n] by simp
qed

text \<open>The same on the example catalog with the count 20.\<close>

theorem recommend_count_clipped_witness:
  "default_index ex_index ex_movies \<and> ''B'' \<in> set (map title ex_movies) \<and>
   matching_dimensions ex_movies ex_similarity \<and>
   int (length ex_movies) \<le> 20 \<and> length ex_movies - 1 = 2 \<and>
   (\<exists>rs. recommend ex_api ex_index ex_movies ex_similarity ''B'' 20 = Inr rs \<and>
      length rs = length ex_movies - 1)"
proof -
  have h0: "default_index ex_index ex_movies" by code_simp
  have h1: "''B'' \<in> set (map title ex_movies)" by (simp add: ex_movies_def)
  have h2: "matching_dimensions ex_movies ex_similarity" by code_simp
  have h3: "int (length ex_movies) \<le> 20" by (simp add: ex_movies_def)
  have h4: "length ex_movies - 1 = 2" by (simp add: ex_movies_def)
  from recommend_count_clipped [OF h0 h1 h2 h3, of ex_api] h0 h1 h2 h3 h4
  show ?thesis by blast
qed

text \<open>
  Claim C10 as it is written fails: with the index \<open>[0, 2, 3]\<close> the label of \<^verbatim>\<open>'C'\<close>
  is 3, which is no row of the matrix of three rows, and \<^verbatim>\<open>similarity[index]\<close> raises
  \<^verbatim>\<open>IndexError\<close> for a title that is in the catalog.
\<close>

theorem recommend_count_clipped_counterexample:
  "''C'' \<in> set (map title ex_movies) \<and> matching_dimensions ex_movies ex_similarity \<and>
   int (length ex_movies) \<le> 3 \<and>
   recommend ex_api gap_index ex_movies ex_similarity ''C'' 3 = Inl IndexError"
  by code_simp

section \<open>Properties of \<^verbatim>\<open>filter_movies_by_criteria\<close>\<close>

text \<open>
  Claim C3. The results of \<^verbatim>\<open>filter_movies_by_criteria\<close> are the dictionaries of a
  subsequence of the catalog, in catalog order, and every movie of that subsequence has
  a genres string that contains the given genre and a cast string that contains the
  given cast, both compared in lower case, and a rating that \<^verbatim>\<open>float\<close> turns into
  a number not below the minimum rating.
\<close>

theorem filter_results_match:
  "\<exists>ms. subseq ms movies \<and>
     filter_movies_by_criteria a movies genre cast min_rating n = map (enriched a) ms \<and>
     (\<forall>m \<in> set ms.
        sublist (lower genre) (lower (Genres (enriched a m))) \<and>
        sublist (lower cast) (lower (Cast (enriched a m))) \<and>
        (\<exists>r. py_float (Rating (enriched a m)) = Inr r \<and> min_rating \<le> r))"
proof -
  let ?M = "matches a genre cast min_rating"
  define ms where "ms = take (wanted n 0) (filter ?M movies)"
  have "subseq ms (filter ?M movies)"
    unfolding ms_def by (rule prefix_imp_subseq) (rule take_is_prefix)
  moreover have "subseq (filter ?M movies) movies" by (rule subseq_filter_left)
  ultimately have sub: "subseq ms movies" by (rule subseq_order.order_trans)
  have res: "filter_movies_by_criteria a movies genre cast min_rating n = map (enriched a) ms"
    unfolding ms_def by (rule filter_movies_by_criteria_eq)
  have "?M m" if "m \<in> set ms" for m
    using that in_set_takeD [of m "wanted n 0" "filter ?M movies"] by (simp add: ms_def)
  then have "\<forall>m \<in> set ms.
        sublist (lower genre) (lower (Genres (enriched a m))) \<and>
        sublist (lower cast) (lower (Cast (enriched a m))) \<and>
        (\<exists>r. py_float (Rating (enriched a m)) = Inr r \<and> min_rating \<le> r)"
    using matches_iff [of a genre cast min_rating] rated_at_least_iff [of a min_rating]
    by blast
  with sub res show ?thesis by blast
qed

text \<open>The same on the example catalog, where one movie passes the three tests.\<close>

theorem filter_results_match_witness:
  "filter_movies_by_criteria ex_api ex_movies ''action'' ''ann'' 5 10 =
     [enriched ex_api (ex_movies ! 0)] \<and>
   (\<exists>ms. subseq ms ex_movies \<and>
     filter_movies_by_criteria ex_api ex_movies ''action'' ''ann'' 5 10 =
       map (enriched ex_api) ms \<and>
     (\<forall>m \<in> set ms.
        sublist (lower ''action'') (lower (Genres (enriched ex_api m))) \<and>
        sublist (lower ''ann'') (lower (Cast (enriched ex_api m))) \<and>
        (\<exists>r. py_float (Rating (enriched ex_api m)) = Inr r \<and> 5 \<le> r)))"
proof -
  have "filter_movies_by_criteria ex_api ex_movies ''action'' ''ann'' 5 10 =
      [enriched ex_api (ex_movies ! 0)]"
    by code_simp
  then show ?thesis
    using filter_results_match [of ex_movies ex_api "''action''" "''ann''" 5 10] by blast
qed

text \<open>
  Claim C4, as amended. For a count of at least 1, \<^verbatim>\<open>filter_movies_by_criteria\<close>
  returns at most that many results, and the requests it sends are those of a prefix of
  the catalog such that, at every scanned position, fewer matches than the count lie
  before it: no row after the one that filled the quota is scanned or fetched.
\<close>

theorem filter_quota:
  assumes "1 \<le> n"
  shows "int (length (filter_movies_by_criteria a movies genre cast min_rating n)) \<le> n \<and>
    (\<exists>j \<le> length movies.
       filter_calls a movies genre cast min_rating n = concat (map calls_of (take j movies)) \<and>
       (\<forall>i < j. int (length (filter (matches a genre cast min_rating) (take i movies))) < n))"
proof -
  have "wanted n 0 = nat n" using assms by (simp add: wanted_def)
  then have "int (length (filter_movies_by_criteria a movies genre cast min_rating n)) \<le> n"
    using assms by (simp add: filter_movies_by_criteria_eq)
  moreover have "int (length ([] :: result list)) < n" using assms by simp
  from filter_loop_calls [OF this, of movies a genre cast min_rating "[]"]
  have "\<exists>j \<le> length movies.
       filter_calls a movies genre cast min_rating n = concat (map calls_of (take j movies)) \<and>
       (\<forall>i < j. int (length (filter (matches a genre cast min_rating) (take i movies))) < n)"
    by (simp add: filter_calls_def filter_run_def)
  ultimately show ?thesis by blast
qed

text \<open>The same on the example catalog with a count of 1: only the first movie is
  fetched.\<close>

theorem filter_quota_witness:
  "(1::int) \<le> 1 \<and>
   filter_calls ex_api ex_movies '''' '''' 0 1 = calls_of (ex_movies ! 0) \<and>
   int (length (filter_movies_by_criteria ex_api ex_movies '''' '''' 0 1)) \<le> 1 \<and>
    (\<exists>j \<le> length ex_movies.
       filter_calls ex_api ex_movies '''' '''' 0 1 = concat (map calls_of (take j ex_movies)) \<and>
       (\<forall>i < j. int (length (filter (matches ex_api '''' '''' 0) (take i ex_movies))) < 1))"
proof -
  have h: "(1::int) \<le> 1" by simp
  have c: "filter_calls ex_api ex_movies '''' '''' 0 1 = calls_of (ex_movies ! 0)"
    by code_simp
  from filter_quota [OF h, of ex_api ex_movies "''''" "''''" 0] c
  show ?thesis by simp
qed

text \<open>
  Claim C4 as it is written fails for a count of 0: the length is compared with the
  count only after a match was appended, so one result is returned.
\<close>

theorem filter_quota_counterexample:
  "filter_movies_by_criteria ex_api ex_movies '''' '''' 0 0 = [enriched ex_api (ex_movies ! 0)] \<and>
   \<not> int (length (filter_movies_by_criteria ex_api ex_movies '''' '''' 0 0)) \<le> 0"
  by code_simp

text \<open>
  Claim C6. For every minimum rating, a positive one in particular, no result of
  \<^verbatim>\<open>filter_movies_by_criteria\<close> has the rating \<^verbatim>\<open>'N/A'\<close>. A movie with that rating
  does not end the scan: the loop goes on with the rows after it, its list of matches
  unchanged, and the results are those of the catalog without that movie.
\<close>

theorem filter_skips_unknown_rating:
  "(\<forall>r \<in> set (filter_movies_by_criteria a movies genre cast min_rating n). Rating r \<noteq> NA) \<and>
   (Rating (enriched a m) = NA \<longrightarrow>
      filter_loop a genre cast min_rating n (m # rest) (matched, calls) =
        filter_loop a genre cast min_rating n rest (matched, calls @ calls_of m)) \<and>
   (Rating (enriched a m) = NA \<longrightarrow>
      filter_movies_by_criteria a (before @ m # rest) genre cast min_rating n =
        filter_movies_by_criteria a (before @ rest) genre cast min_rating n)"
proof -
  let ?M = "matches a genre cast min_rating"
  have no: "Rating (enriched a x) = NA \<Longrightarrow> \<not> ?M x" for x
    by (simp add: matches_iff rated_at_least_def)
  have "\<forall>r \<in> set (filter_movies_by_criteria a movies genre cast min_rating n). Rating r \<noteq> NA"
    using no by (auto simp: filter_movies_by_criteria_eq dest!: in_set_takeD)
  moreover have "Rating (enriched a m) = NA \<longrightarrow>
      filter_loop a genre cast min_rating n (m # rest) (matched, calls) =
        filter_loop a genre cast min_rating n rest (matched, calls @ calls_of m)"
    using no [of m] by (simp only: filter_loop_step) simp
  moreover have "Rating (enriched a m) = NA \<longrightarrow>
      filter_movies_by_criteria a (before @ m # rest) genre cast min_rating n =
        filter_movies_by_criteria a (before @ rest) genre cast min_rating n"
    using no [of m] by (simp add: filter_movies_by_criteria_eq)
  ultimately show ?thesis by blast
qed

text \<open>The same on the example catalog, whose second movie has no vote average: the
  third movie is still examined and matches.\<close>

theorem filter_skips_unknown_rating_witness:
  "Rating (enriched ex_api (ex_movies ! 1)) = NA \<and>
   filter_movies_by_criteria ex_api ex_movies '''' '''' (1/2) 10 =
     [enriched ex_api (ex_movies ! 0), enriched ex_api (ex_movies ! 2)] \<and>
   list_all (\<lambda>r. Rating r \<noteq> NA)
     (filter_movies_by_criteria ex_api ex_movies '''' '''' (1/2) 10) \<and>
   filter_loop ex_api '''' '''' (1/2) 10 (ex_movies ! 1 # [ex_movies ! 2]) ([], []) =
     filter_loop ex_api '''' '''' (1/2) 10 [ex_movies ! 2] ([], [] @ calls_of (ex_movies ! 1)) \<and>
   filter_movies_by_criteria ex_api ([ex_movies ! 0] @ ex_movies ! 1 # [ex_movies ! 2])
       '''' '''' (1/2) 10 =
     filter_movies_by_criteria ex_api ([ex_movies ! 0] @ [ex_movies ! 2]) '''' '''' (1/2) 10"
proof -
  have h: "Rating (enriched ex_api (ex_movies ! 1)) = NA" by code_simp
  have v: "filter_movies_by_criteria ex_api ex_movies '''' '''' (1/2) 10 =
     [enriched ex_api (ex_movies ! 0), enriched ex_api (ex_movies ! 2)]" by code_simp
  from filter_skips_unknown_rating
    [of ex_api ex_movies "''''" "''''" "1/2" 10 "ex_movies ! 1" "[ex_movies ! 2]" "[]" "[]"
        "[ex_movies ! 0]"] h v
  show ?thesis unfolding list_all_iff by blast
qed

text \<open>
  Claim C7, as amended. For a count \<open>n\<close> of at least 1, the call with an empty genre,
  an empty cast and the minimum rating 0 returns, in catalog order, the first \<open>n\<close> of
  the movies whose rating is a number that is not negative (all of them when they are
  fewer). When every movie of the catalog has such a rating these are the first
  \<open>min n (length movies)\<close> catalog entries.
\<close>

theorem filter_all_pass:
  assumes "1 \<le> n"
  shows "filter_movies_by_criteria a movies [] [] 0 n =
           map (enriched a) (take (nat n) (filter (rated_at_least a 0) movies)) \<and>
         ((\<forall>m \<in> set movies. rated_at_least a 0 m) \<longrightarrow>
            filter_movies_by_criteria a movies [] [] 0 n =
              map (enriched a) (take (min (nat n) (length movies)) movies))"
proof -
  have w: "wanted n 0 = nat n" using assms by (simp add: wanted_def)
  have "matches a [] [] 0 = rated_at_least a 0"
    by (rule ext) (simp add: matches_iff sublist_Nil_lower)
  then have eq: "filter_movies_by_criteria a movies [] [] 0 n =
      map (enriched a) (take (nat n) (filter (rated_at_least a 0) movies))"
    by (simp add: filter_movies_by_criteria_eq w)
  moreover have "(\<forall>m \<in> set movies. rated_at_least a 0 m) \<longrightarrow>
      filter (rated_at_least a 0) movies = movies" by simp
  ultimately show ?thesis by (auto simp: min_def)
qed

text \<open>The same on the two movies of the example catalog that have a vote average.\<close>

theorem filter_all_pass_witness:
  "(1::int) \<le> 2 \<and> list_all (rated_at_least ex_api 0) [ex_movies ! 0, ex_movies ! 2] \<and>
   filter_movies_by_criteria ex_api [ex_movies ! 0, ex_movies ! 2] [] [] 0 2 =
     map (enriched ex_api)
       (take (nat 2) (filter (rated_at_least ex_api 0) [ex_movies ! 0, ex_movies ! 2])) \<and>
   filter_movies_by_criteria ex_api [ex_movies ! 0, ex_movies ! 2] [] [] 0 2 =
     map (enriched ex_api) (take (min (nat 2) (length [ex_movies ! 0, ex_movies ! 2]))
       [ex_movies ! 0, ex_movies ! 2])"
proof -
  have h1: "(1::int) \<le> 2" by simp
  have h2: "list_all (rated_at_least ex_api 0) [ex_movies ! 0, ex_movies ! 2]" by code_simp
  then have h3: "\<forall>m \<in> set [ex_movies ! 0, ex_movies ! 2]. rated_at_least ex_api 0 m"
    by (simp only: list_all_iff)
  from filter_all_pass [OF h1, of ex_api "[ex_movies ! 0, ex_movies ! 2]"] h1 h2 h3
  show ?thesis by blast
qed

text \<open>
  Claim C7 as it is written fails: the second movie of the example catalog has the
  rating \<^verbatim>\<open>'N/A'\<close>, on which \<^verbatim>\<open>float\<close> raises, so it is skipped and the call
  returns two of the three catalog entries.
\<close>

theorem filter_all_pass_counterexample:
  "filter_movies_by_criteria ex_api ex_movies '''' '''' 0 3 =
     [enriched ex_api (ex_movies ! 0), enriched ex_api (ex_movies ! 2)] \<and>
   filter_movies_by_criteria ex_api ex_movies '''' '''' 0 3 \<noteq>
     map (enriched ex_api) (take (min 3 (length ex_movies)) ex_movies)"
  by code_simp

text \<open>
  Claim C9. When the count is 0 or negative and some movie of the catalog passes the
  three tests, \<^verbatim>\<open>filter_movies_by_criteria\<close> returns exactly one result, the
  dictionary of the first such movie.
\<close>

theorem filter_nonpositive_count:
  assumes "n \<le> 0" and "\<exists>m \<in> set movies. matches a genre cast min_rating m"
  shows "length (filter_movies_by_criteria a movies genre cast min_rating n) = 1 \<and>
         filter_movies_by_criteria a movies genre cast min_rating n =
           map (enriched a) (take 1 (filter (matches a genre cast min_rating) movies))"
proof -
  have "wanted n 0 = 1" using assms(1) by (simp add: wanted_def)
  moreover have "filter (matches a genre cast min_rating) movies \<noteq> []"
    using assms(2) by (simp add: filter_empty_conv)
  ultimately show ?thesis by (cases "filter (matches a genre cast min_rating) movies")
      (simp_all add: filter_movies_by_criteria_eq)
qed

text \<open>The same on the example catalog with the count -3.\<close>

theorem filter_nonpositive_count_witness:
  "(-3::int) \<le> 0 \<and> (\<exists>m \<in> set ex_movies. matches ex_api ''c'' '''' 0 m) \<and>
   length (filter_movies_by_criteria ex_api ex_movies ''c'' '''' 0 (-3)) = 1 \<and>
   filter_movies_by_criteria ex_api ex_movies ''c'' '''' 0 (-3) =
     map (enriched ex_api) (take 1 (filter (matches ex_api ''c'' '''' 0) ex_movies))"
proof -
  have h1: "(-3::int) \<le> 0" by simp
  have h2: "\<exists>m \<in> set ex_movies. matches ex_api ''c'' '''' 0 m" by code_simp
  from filter_nonpositive_count [OF h1 h2] h1 h2 show ?thesis by blast
qed

section \<open>Properties of \<^verbatim>\<open>fetch_trailer\<close>\<close>

text \<open>
  Claim C8. \<^verbatim>\<open>fetch_trailer\<close> always returns a URL. When the request fails, when the
  body has no list of results, or when no entry of the list has the type
  \<^verbatim>\<open>'Trailer'\<close> and the site \<^verbatim>\<open>'YouTube'\<close>, it is the fallback
  \<^verbatim>\<open>https://youtube.com\<close>. Otherwise it is the watch URL built from the key of the
  first such entry, unless reading a key of that entry or of an entry before it raises
  \<^verbatim>\<open>KeyError\<close>, a failure that gives the fallback as well.
\<close>

theorem fetch_trailer_result:
  "(videos_response a mid = Failed \<longrightarrow> fetch_trailer a mid = ''https://youtube.com'') \<and>
   (videos_response a mid = Json None \<longrightarrow> fetch_trailer a mid = ''https://youtube.com'') \<and>
   (videos_response a mid = Json (Some vs) \<longrightarrow>
      fetch_trailer a mid =
        (case find is_youtube_trailer vs of
           None \<Rightarrow> ''https://youtube.com''
         | Some v \<Rightarrow>
             if list_ex raises_key_error (takeWhile (\<lambda>x. \<not> is_youtube_trailer x) vs @ [v])
             then ''https://youtube.com''
             else ''https://www.youtube.com/watch?v='' @ the (video_key v)))"
proof -
  have "videos_response a mid = Json (Some vs) \<longrightarrow>
      fetch_trailer a mid =
        (case find is_youtube_trailer vs of
           None \<Rightarrow> ''https://youtube.com''
         | Some v \<Rightarrow>
             if list_ex raises_key_error (takeWhile (\<lambda>x. \<not> is_youtube_trailer x) vs @ [v])
             then ''https://youtube.com''
             else ''https://www.youtube.com/watch?v='' @ the (video_key v))"
  proof (cases "find is_youtube_trailer vs")
    case None
    from trailer_loop_no_match [OF this] None show ?thesis
      by (auto simp: fetch_trailer_def)
  next
    case (Some v)
    from trailer_loop_match [OF this] Some show ?thesis
      by (simp add: fetch_trailer_def)
  qed
  then show ?thesis by (simp add: fetch_trailer_def)
qed

text \<open>The same on the example service: the third entry of the list is the first
  YouTube trailer, and the request for the second movie fails.\<close>

theorem fetch_trailer_result_witness:
  "videos_response ex_api 1 = Json (Some ex_videos) \<and>
   find is_youtube_trailer ex_videos = Some (ex_videos ! 2) \<and>
   \<not> list_ex raises_key_error
       (takeWhile (\<lambda>x. \<not> is_youtube_trailer x) ex_videos @ [ex_videos ! 2]) \<and>
   fetch_trailer ex_api 1 = ''https://www.youtube.com/watch?v=y3'' \<and>
   videos_response ex_api 2 = Failed \<and> fetch_trailer ex_api 2 = ''https://youtube.com''"
proof -
  have h1: "videos_response ex_api 1 = Json (Some ex_videos)" by (simp add: ex_api_def)
  have h2: "find is_youtube_trailer ex_videos = Some (ex_videos ! 2)" by code_simp
  have h3: "\<not> list_ex raises_key_error
       (takeWhile (\<lambda>x. \<not> is_youtube_trailer x) ex_videos @ [ex_videos ! 2])" by code_simp
  have h4: "the (video_key (ex_videos ! 2)) = ''y3''" by code_simp
  have h5: "videos_response ex_api 2 = Failed" by (simp add: ex_api_def)
  from fetch_trailer_result [of ex_api 1 ex_videos] h1 h2 h3 h4
  have "fetch_trailer ex_api 1 = ''https://www.youtube.com/watch?v=y3''" by simp
  moreover from fetch_trailer_result [of ex_api 2] h5
  have "fetch_trailer ex_api 2 = ''https://youtube.com''" by simp
  ultimately show ?thesis using h1 h2 h3 h5 by blast
qed

end
